theory Spec2Isabelle
  imports Complex_Main
begin

section \<open>The sweep driver \<^verbatim>\<open>dr_conversion_compare.py\<close>\<close>

text \<open>
  The script drives the external simulator SLiM over a sweep of the number of gRNAs, scrapes
  one field from its textual output, averages twenty runs per sweep point and plots two
  configurations. This theory embeds the functions \<^verbatim>\<open>calculate_average\<close>,
  \<^verbatim>\<open>parse_slim\<close>, \<^verbatim>\<open>run_slim\<close>,
  \<^verbatim>\<open>configure_slim_command_line\<close> and \<^verbatim>\<open>collect_data\<close>.

  Conventions of the embedding.
  \<^item> A Python \<^verbatim>\<open>str\<close> is a \<^typ>\<open>string\<close>; a \<^typ>\<open>char\<close> stands for the code point
    of the same number, so the texts covered are those of code points below 256.
  \<^item> An exception is a value of \<^verbatim>\<open>error\<close>; a function that can raise returns
    \<^verbatim>\<open>error + 'a\<close>, with \<open>Inl\<close> for the exception.
  \<^item> A \<^verbatim>\<open>dict\<close> is an association list in insertion order.
  \<^item> A \<^verbatim>\<open>float\<close> is an IEEE 754 binary64 value: a rational that the format
    represents, an infinity or a NaN. The two zeros are one value (they compare equal in
    Python and no operation of the script tells them apart).
\<close>

subsection \<open>Exceptions\<close>

datatype error =
    KeyError
  | TypeError
  | IndexError
  | UnboundLocalError
  | ValueError
  | ZeroDivisionError
  | OverflowError
  | OSError

subsection \<open>String operations of Python used by the script\<close>

text \<open>
  \<^verbatim>\<open>str.isspace\<close> on one character, for code points below 256: the characters on
  which \<^verbatim>\<open>str.split()\<close> splits.
\<close>

definition py_isspace :: "char \<Rightarrow> bool" where
  "py_isspace c = ((of_char c :: nat) \<in> set [9, 10, 11, 12, 13, 28, 29, 30, 31, 32, 133, 160])"

text \<open>\<^verbatim>\<open>s.split()\<close>: the maximal runs of non-whitespace characters, in order.\<close>

fun split_ws :: "string \<Rightarrow> string \<Rightarrow> string list" where
  "split_ws [] cur = (if cur = [] then [] else [cur])"
| "split_ws (c # cs) cur =
     (if py_isspace c then (if cur = [] then split_ws cs [] else cur # split_ws cs [])
      else split_ws cs (cur @ [c]))"

definition py_split :: "string \<Rightarrow> string list" where
  "py_split s = split_ws s []"

text \<open>\<^verbatim>\<open>s.split(sep)\<close> for a separator of one character: empty fields are kept.\<close>

fun split_on :: "char \<Rightarrow> string \<Rightarrow> string \<Rightarrow> string list" where
  "split_on sep [] cur = [cur]"
| "split_on sep (c # cs) cur =
     (if c = sep then cur # split_on sep cs [] else split_on sep cs (cur @ [c]))"

definition py_split_sep :: "char \<Rightarrow> string \<Rightarrow> string list" where
  "py_split_sep sep s = split_on sep s []"

text \<open>\<^verbatim>\<open>s.startswith(p)\<close>.\<close>

definition startswith :: "string \<Rightarrow> string \<Rightarrow> bool" where
  "startswith s p = (take (length p) s = p)"

subsection \<open>\<^verbatim>\<open>parse_slim\<close>\<close>

text \<open>
  \<^verbatim>\<open>
  def parse_slim(slim_string):
      lines = slim_string.split('\n')
      for line in lines:
          if line.startswith("PYTHON:: "):
              spaced_line = line.split()
              dr_rate = spaced_line[7]
      return dr_rate
  \<close>
  The local \<^verbatim>\<open>dr_rate\<close> is unbound until a marker line assigns it: the loop carries it
  as an option. \<^verbatim>\<open>spaced_line[7]\<close> raises \<^verbatim>\<open>IndexError\<close> on a marker line of
  fewer than eight fields, and reading the unbound local at \<^verbatim>\<open>return\<close> raises
  \<^verbatim>\<open>UnboundLocalError\<close>.
\<close>

definition marker :: string where
  "marker = ''PYTHON:: ''"

fun parse_loop :: "string list \<Rightarrow> string option \<Rightarrow> error + string option" where
  "parse_loop [] dr_rate = Inr dr_rate"
| "parse_loop (line # lines) dr_rate =
     (if startswith line marker then
        (let spaced_line = py_split line in
         if 7 < length spaced_line then parse_loop lines (Some (spaced_line ! 7))
         else Inl IndexError)
      else parse_loop lines dr_rate)"

definition parse_slim :: "string \<Rightarrow> error + string" where
  "parse_slim slim_string =
     (let lines = py_split_sep (CHR 0x0A) slim_string in
      case parse_loop lines None of
        Inl e \<Rightarrow> Inl e
      | Inr None \<Rightarrow> Inl UnboundLocalError
      | Inr (Some dr_rate) \<Rightarrow> Inr dr_rate)"

text \<open>The marker lines of a text, in order: what the loop of \<^verbatim>\<open>parse_slim\<close> acts on.\<close>

definition marker_lines :: "string \<Rightarrow> string list" where
  "marker_lines slim_string =
     filter (\<lambda>line. startswith line marker) (py_split_sep (CHR 0x0A) slim_string)"

subsection \<open>Python floats\<close>

text \<open>
  A \<^verbatim>\<open>float\<close> is a binary64 value. \<open>Finite q\<close> stands for the rational \<open>q\<close>, which
  every operation below produces through \<open>round64\<close>, the rounding of IEEE 754 to the
  nearest representable value, ties to the even significand: 53 significant bits, the
  least exponent -1022 (below it the spacing stays \<open>2 ^ -1074\<close>), and a result whose
  magnitude reaches \<open>2 ^ 1024\<close> after rounding becomes an infinity.
\<close>

datatype pyfloat = Finite rat | PosInf | NegInf | NaN

text \<open>The number of binary digits of a positive integer.\<close>

function bit_length :: "int \<Rightarrow> nat" where
  "bit_length n = (if n \<le> 0 then 0 else Suc (bit_length (n div 2)))"
  by pat_completeness auto
termination
  by (relation "measure nat") auto

declare bit_length.simps [simp del]

definition pow2 :: "int \<Rightarrow> rat" where
  "pow2 k = (if 0 \<le> k then 2 ^ nat k else 1 / 2 ^ nat (- k))"

text \<open>The exponent of a positive rational: the \<open>e\<close> with \<open>2 ^ e \<le> q < 2 ^ (e + 1)\<close>.\<close>

definition ilog2 :: "rat \<Rightarrow> int" where
  "ilog2 q =
     (if 1 \<le> q then int (bit_length \<lfloor>q\<rfloor>) - 1
      else - int (bit_length (\<lceil>1 / q\<rceil> - 1)))"

definition round_half_even :: "rat \<Rightarrow> int" where
  "round_half_even q =
     (let n = \<lfloor>q\<rfloor>; r = q - of_int n in
      if r < 1 / 2 then n
      else if 1 / 2 < r then n + 1
      else if even n then n else n + 1)"

definition round64 :: "rat \<Rightarrow> pyfloat" where
  "round64 q =
     (if q = 0 then Finite 0
      else
        let e = max (ilog2 \<bar>q\<bar>) (- 1022);
            quantum = pow2 (e - 52);
            r = of_int (round_half_even (q / quantum)) * quantum
        in if pow2 1024 \<le> r then PosInf
           else if r \<le> - pow2 1024 then NegInf
           else Finite r)"

text \<open>\<^verbatim>\<open>x + y\<close>, \<^verbatim>\<open>-x\<close>, \<^verbatim>\<open>x - y\<close> on floats: they never raise.\<close>

fun float_add :: "pyfloat \<Rightarrow> pyfloat \<Rightarrow> pyfloat" where
  "float_add NaN y = NaN"
| "float_add x NaN = NaN"
| "float_add PosInf NegInf = NaN"
| "float_add NegInf PosInf = NaN"
| "float_add PosInf y = PosInf"
| "float_add NegInf y = NegInf"
| "float_add x PosInf = PosInf"
| "float_add x NegInf = NegInf"
| "float_add (Finite a) (Finite b) = round64 (a + b)"

fun float_neg :: "pyfloat \<Rightarrow> pyfloat" where
  "float_neg (Finite a) = Finite (- a)"
| "float_neg PosInf = NegInf"
| "float_neg NegInf = PosInf"
| "float_neg NaN = NaN"

definition float_sub :: "pyfloat \<Rightarrow> pyfloat \<Rightarrow> pyfloat" where
  "float_sub x y = float_add x (float_neg y)"

text \<open>
  \<^verbatim>\<open>x / y\<close> on floats raises \<^verbatim>\<open>ZeroDivisionError\<close> when the divisor is zero, whatever
  the dividend; otherwise it is the division of IEEE 754, which \<open>ieee_div\<close> gives for
  a divisor other than zero.
\<close>

fun ieee_div :: "pyfloat \<Rightarrow> pyfloat \<Rightarrow> pyfloat" where
  "ieee_div NaN y = NaN"
| "ieee_div x NaN = NaN"
| "ieee_div (Finite a) (Finite b) = round64 (a / b)"
| "ieee_div (Finite a) y = Finite 0"
| "ieee_div PosInf (Finite b) = (if 0 < b then PosInf else NegInf)"
| "ieee_div NegInf (Finite b) = (if 0 < b then NegInf else PosInf)"
| "ieee_div x y = NaN"

definition float_truediv :: "pyfloat \<Rightarrow> pyfloat \<Rightarrow> error + pyfloat" where
  "float_truediv x y = (if y = Finite 0 then Inl ZeroDivisionError else Inr (ieee_div x y))"

subsection \<open>Conversions between strings and numbers\<close>

text \<open>
  \<^verbatim>\<open>str(n)\<close> for an \<^verbatim>\<open>int\<close>: the decimal digits, after a minus sign if negative.
  (CPython from 3.11 on refuses to print an int of more than 4300 digits unless the
  interpreter is set up otherwise; this setting of the interpreter is left out.)
\<close>

definition digit_char :: "nat \<Rightarrow> char" where
  "digit_char d = ''0123456789'' ! d"

function str_digits :: "int \<Rightarrow> string" where
  "str_digits n =
     (if n < 10 then [digit_char (nat n)]
      else str_digits (n div 10) @ [digit_char (nat (n mod 10))])"
  by pat_completeness auto
termination
  by (relation "measure nat") auto

declare str_digits.simps [simp del]

definition str_int :: "int \<Rightarrow> string" where
  "str_int i = (if i < 0 then CHR ''-'' # str_digits (- i) else str_digits i)"

text \<open>
  \<^verbatim>\<open>float(s)\<close> for a string: surrounding whitespace is dropped; then come an optional
  sign and either \<^verbatim>\<open>inf\<close>, \<^verbatim>\<open>infinity\<close> or \<^verbatim>\<open>nan\<close> in any case, or a decimal
  number with an optional fraction and an optional exponent, where single underscores may
  separate digits. The value is the decimal number rounded once. Anything else raises
  \<^verbatim>\<open>ValueError\<close>.
\<close>

definition is_digit :: "char \<Rightarrow> bool" where
  "is_digit c = (48 \<le> (of_char c :: nat) \<and> (of_char c :: nat) \<le> 57)"

definition digit_val :: "char \<Rightarrow> int" where
  "digit_val c = of_char c - 48"

definition lower :: "char \<Rightarrow> char" where
  "lower c = (if 65 \<le> (of_char c :: nat) \<and> (of_char c :: nat) \<le> 90
              then char_of ((of_char c :: nat) + 32) else c)"

text \<open>
  The characters that \<^verbatim>\<open>float\<close> drops around the number: the whitespace of ASCII and,
  below 256, the two other spaces of Unicode; not the separators 28 to 31, on which
  \<^verbatim>\<open>split()\<close> splits.
\<close>

definition float_isspace :: "char \<Rightarrow> bool" where
  "float_isspace c = ((of_char c :: nat) \<in> set [9, 10, 11, 12, 13, 32, 133, 160])"

definition float_strip :: "string \<Rightarrow> string" where
  "float_strip s = rev (dropWhile float_isspace (rev (dropWhile float_isspace s)))"

text \<open>
  The digits of the longest \<^verbatim>\<open>digitpart\<close> (\<^verbatim>\<open>digit (["_"] digit)*\<close>) that starts the
  string, and the rest of the string.
\<close>

fun digitpart_rest :: "string \<Rightarrow> string \<Rightarrow> string \<times> string" where
  "digitpart_rest [] acc = (acc, [])"
| "digitpart_rest [c] acc = (if is_digit c then (acc @ [c], []) else (acc, [c]))"
| "digitpart_rest (c # d # ds) acc =
     (if is_digit c then digitpart_rest (d # ds) (acc @ [c])
      else if c = CHR ''_'' \<and> is_digit d then digitpart_rest ds (acc @ [d])
      else (acc, c # d # ds))"

fun digitpart :: "string \<Rightarrow> string \<times> string" where
  "digitpart [] = ([], [])"
| "digitpart (c # cs) = (if is_digit c then digitpart_rest cs [c] else ([], c # cs))"

definition int_of_digits :: "string \<Rightarrow> int" where
  "int_of_digits ds = foldl (\<lambda>a c. 10 * a + digit_val c) 0 ds"

definition pow10 :: "int \<Rightarrow> rat" where
  "pow10 k = (if 0 \<le> k then 10 ^ nat k else 1 / 10 ^ nat (- k))"

text \<open>An optional sign: whether it is a minus, and the rest of the string.\<close>

fun take_sign :: "string \<Rightarrow> bool \<times> string" where
  "take_sign [] = (False, [])"
| "take_sign (c # cs) =
     (if c = CHR ''-'' then (True, cs) else if c = CHR ''+'' then (False, cs) else (False, c # cs))"

text \<open>The exponent part: absent, or \<^verbatim>\<open>e\<close> or \<^verbatim>\<open>E\<close>, an optional sign and a digitpart.\<close>

definition exponent_part :: "string \<Rightarrow> error + int" where
  "exponent_part s =
     (case s of
        [] \<Rightarrow> Inr 0
      | c # cs \<Rightarrow>
          if lower c = CHR ''e'' then
            (let (neg, r) = take_sign cs; (ds, rest) = digitpart r in
             if ds = [] \<or> rest \<noteq> [] then Inl ValueError
             else Inr (if neg then - int_of_digits ds else int_of_digits ds))
          else Inl ValueError)"

definition py_float :: "string \<Rightarrow> error + pyfloat" where
  "py_float s =
     (let (neg, u) = take_sign (float_strip s) in
      if map lower u = ''inf'' \<or> map lower u = ''infinity''
      then Inr (if neg then NegInf else PosInf)
      else if map lower u = ''nan'' then Inr NaN
      else
        let (ip, r1) = digitpart u;
            (fp, r2) = (case r1 of
                          [] \<Rightarrow> ([], [])
                        | c # cs \<Rightarrow> if c = CHR ''.'' then digitpart cs else ([], r1))
        in if ip = [] \<and> fp = [] then Inl ValueError
           else
             case exponent_part r2 of
               Inl e \<Rightarrow> Inl e
             | Inr ex \<Rightarrow>
                 let m = rat_of_int (int_of_digits (ip @ fp)) * pow10 (ex - int (length fp))
                 in Inr (round64 (if neg then - m else m)))"

subsection \<open>Values and dictionaries\<close>

text \<open>
  The values a parameter mapping holds: \<^verbatim>\<open>bool\<close>, \<^verbatim>\<open>int\<close>, \<^verbatim>\<open>float\<close> and
  \<^verbatim>\<open>str\<close> (the source file name). \<^verbatim>\<open>calculate_average\<close> returns a \<^verbatim>\<open>float\<close> or the
  \<^verbatim>\<open>int\<close> 0.
\<close>

datatype pyval = PBool bool | PInt int | PFloat pyfloat | PStr string

text \<open>
  What an f-string prints for a value, \<^verbatim>\<open>str(v)\<close>. For a float this is the shortest
  decimal string that reads back as the same float; the script depends on none of its
  digits, so the function \<open>float_repr\<close> that gives it is a parameter.
\<close>

fun py_str :: "(pyfloat \<Rightarrow> string) \<Rightarrow> pyval \<Rightarrow> string" where
  "py_str float_repr (PBool b) = (if b then ''True'' else ''False'')"
| "py_str float_repr (PInt i) = str_int i"
| "py_str float_repr (PFloat x) = float_repr x"
| "py_str float_repr (PStr s) = s"

text \<open>
  A \<^verbatim>\<open>dict\<close> with string keys, as the list of its items in insertion order.
  \<^verbatim>\<open>d[k]\<close> raises \<^verbatim>\<open>KeyError\<close> on a missing key; \<^verbatim>\<open>d[k] = v\<close> replaces the value of an
  existing key where it stands and appends a new key at the end.
\<close>

type_synonym pydict = "(string \<times> pyval) list"

definition dict_get :: "pydict \<Rightarrow> string \<Rightarrow> error + pyval" where
  "dict_get d k = (case map_of d k of None \<Rightarrow> Inl KeyError | Some v \<Rightarrow> Inr v)"

fun dict_set :: "pydict \<Rightarrow> string \<Rightarrow> pyval \<Rightarrow> pydict" where
  "dict_set [] k v = [(k, v)]"
| "dict_set ((k', v') # d) k v = (if k' = k then (k, v) # d else (k', v') # dict_set d k v)"

subsection \<open>\<^verbatim>\<open>calculate_average\<close>\<close>

text \<open>
  \<^verbatim>\<open>
  def calculate_average(nums):
      total = sum(nums)
      count = len(nums)
      if count > 0:
          average = total / count
          return average
      else:
          return 0
  \<close>
  The list holds numbers: \<^verbatim>\<open>int\<close> (and \<^verbatim>\<open>bool\<close>, which counts as the int 0 or 1) and
  \<^verbatim>\<open>float\<close>. \<^verbatim>\<open>sum\<close> adds the items from left to right to the start value, the int
  \<^verbatim>\<open>0\<close>: ints are added exactly, an int met by a float is converted to a float first, which
  raises \<^verbatim>\<open>OverflowError\<close> when it is too large, floats are added with rounding (CPython
  from 3.12 on carries a compensation term along for floats and adds it at the end; the
  results can differ in the last place), and a string raises \<^verbatim>\<open>TypeError\<close>.
  \<^verbatim>\<open>total / count\<close> is the true division: of two ints, the quotient rounded once, with
  \<^verbatim>\<open>OverflowError\<close> when it is too large for a float; of a float by an int, the float
  division by the converted int.
\<close>

datatype number = NInt int | NFloat pyfloat

fun as_number :: "pyval \<Rightarrow> number option" where
  "as_number (PBool b) = Some (NInt (if b then 1 else 0))"
| "as_number (PInt i) = Some (NInt i)"
| "as_number (PFloat x) = Some (NFloat x)"
| "as_number (PStr s) = None"

text \<open>\<^verbatim>\<open>float(n)\<close> for an int, as the mixed operations convert it.\<close>

definition float_of_int :: "int \<Rightarrow> error + pyfloat" where
  "float_of_int n =
     (case round64 (rat_of_int n) of Finite q \<Rightarrow> Inr (Finite q) | _ \<Rightarrow> Inl OverflowError)"

text \<open>
  \<^verbatim>\<open>x + y\<close> and \<^verbatim>\<open>x / y\<close> where the left operand is a number, as it is throughout
  \<^verbatim>\<open>calculate_average\<close>: an operand that is not a number raises \<^verbatim>\<open>TypeError\<close>.
\<close>

definition py_add :: "pyval \<Rightarrow> pyval \<Rightarrow> error + pyval" where
  "py_add x y =
     (case (as_number x, as_number y) of
        (Some (NInt a), Some (NInt b)) \<Rightarrow> Inr (PInt (a + b))
      | (Some (NInt a), Some (NFloat v)) \<Rightarrow>
          (case float_of_int a of Inl e \<Rightarrow> Inl e | Inr u \<Rightarrow> Inr (PFloat (float_add u v)))
      | (Some (NFloat u), Some (NInt b)) \<Rightarrow>
          (case float_of_int b of Inl e \<Rightarrow> Inl e | Inr v \<Rightarrow> Inr (PFloat (float_add u v)))
      | (Some (NFloat u), Some (NFloat v)) \<Rightarrow> Inr (PFloat (float_add u v))
      | _ \<Rightarrow> Inl TypeError)"

definition float_quotient :: "pyfloat \<Rightarrow> pyfloat \<Rightarrow> error + pyval" where
  "float_quotient u v =
     (case float_truediv u v of Inl e \<Rightarrow> Inl e | Inr average \<Rightarrow> Inr (PFloat average))"

definition py_truediv :: "pyval \<Rightarrow> pyval \<Rightarrow> error + pyval" where
  "py_truediv x y =
     (case (as_number x, as_number y) of
        (Some (NInt a), Some (NInt b)) \<Rightarrow>
          (if b = 0 then Inl ZeroDivisionError
           else case round64 (rat_of_int a / rat_of_int b) of
                  Finite q \<Rightarrow> Inr (PFloat (Finite q))
                | _ \<Rightarrow> Inl OverflowError)
      | (Some (NInt a), Some (NFloat v)) \<Rightarrow>
          (case float_of_int a of Inl e \<Rightarrow> Inl e | Inr u \<Rightarrow> float_quotient u v)
      | (Some (NFloat u), Some (NInt b)) \<Rightarrow>
          (case float_of_int b of Inl e \<Rightarrow> Inl e | Inr v \<Rightarrow> float_quotient u v)
      | (Some (NFloat u), Some (NFloat v)) \<Rightarrow> float_quotient u v
      | _ \<Rightarrow> Inl TypeError)"

text \<open>\<^verbatim>\<open>sum(nums)\<close>: the loop over the items, and the call with the start value 0.\<close>

fun sum_loop :: "pyval list \<Rightarrow> pyval \<Rightarrow> error + pyval" where
  "sum_loop [] result = Inr result"
| "sum_loop (item # rest) result =
     (case py_add result item of Inl e \<Rightarrow> Inl e | Inr r \<Rightarrow> sum_loop rest r)"

definition py_sum :: "pyval list \<Rightarrow> error + pyval" where
  "py_sum nums = sum_loop nums (PInt 0)"

definition calculate_average :: "pyval list \<Rightarrow> error + pyval" where
  "calculate_average nums =
     (case py_sum nums of
        Inl e \<Rightarrow> Inl e
      | Inr s \<Rightarrow>
          (let total = s;
               count = int (length nums)
           in if count > 0 then py_truediv total (PInt count) else Inr (PInt 0)))"

subsection \<open>\<^verbatim>\<open>run_slim\<close>\<close>

text \<open>
  \<^verbatim>\<open>
  def run_slim(command_line_args):
      slim = subprocess.Popen(command_line_args, stdout=subprocess.PIPE,
                              stderr=subprocess.PIPE, universal_newlines=True)
      out, err = slim.communicate()
      return out
  \<close>
  The child process is outside the program: it is a parameter, a function from the argument
  list and the state \<open>'w\<close> of the outside world to the captured pair \<^verbatim>\<open>(out, err)\<close>, or to
  the exception raised when the process cannot be started, and the next state of the world.
\<close>

type_synonym 'w process = "string list \<Rightarrow> 'w \<Rightarrow> (error + string \<times> string) \<times> 'w"

definition run_slim :: "'w process \<Rightarrow> string list \<Rightarrow> 'w \<Rightarrow> (error + string) \<times> 'w" where
  "run_slim popen command_line_args w =
     (case popen command_line_args w of
        (Inl e, w') \<Rightarrow> (Inl e, w')
      | (Inr (out, err), w') \<Rightarrow> (Inr out, w'))"

subsection \<open>\<^verbatim>\<open>configure_slim_command_line\<close>\<close>

text \<open>
  \<^verbatim>\<open>
  def configure_slim_command_line(args_dict):
      clargs = "slim "
      source = args_dict["source"]
      for arg in args_dict:
          if arg == "source":
              continue
          if isinstance(args_dict[arg], bool):
              clargs += f"-d {arg}={'T' if args_dict[arg] else 'F'} "
          else:
              clargs += f"-d {arg}={args_dict[arg]} "
      clargs += source
      return clargs.split()
  \<close>
  The dictionary is an object of the caller: the function takes it and returns it beside
  its result. \<^verbatim>\<open>clargs += source\<close> raises \<^verbatim>\<open>TypeError\<close> unless \<^verbatim>\<open>source\<close> is a string.
\<close>

fun clargs_loop ::
  "(pyfloat \<Rightarrow> string) \<Rightarrow> string list \<Rightarrow> string \<Rightarrow> pydict \<Rightarrow> (error + string) \<times> pydict" where
  "clargs_loop float_repr [] clargs args_dict = (Inr clargs, args_dict)"
| "clargs_loop float_repr (arg # rest) clargs args_dict =
     (if arg = ''source'' then clargs_loop float_repr rest clargs args_dict
      else
        case dict_get args_dict arg of
          Inl e \<Rightarrow> (Inl e, args_dict)
        | Inr (PBool b) \<Rightarrow>
            clargs_loop float_repr rest
              (clargs @ ''-d '' @ arg @ ''='' @ (if b then ''T'' else ''F'') @ '' '') args_dict
        | Inr v \<Rightarrow>
            clargs_loop float_repr rest
              (clargs @ ''-d '' @ arg @ ''='' @ py_str float_repr v @ '' '') args_dict)"

definition configure_slim_command_line ::
  "(pyfloat \<Rightarrow> string) \<Rightarrow> pydict \<Rightarrow> (error + string list) \<times> pydict" where
  "configure_slim_command_line float_repr args_dict =
     (case dict_get args_dict ''source'' of
        Inl e \<Rightarrow> (Inl e, args_dict)
      | Inr source \<Rightarrow>
          (case clargs_loop float_repr (map fst args_dict) ''slim '' args_dict of
             (Inl e, args_dict') \<Rightarrow> (Inl e, args_dict')
           | (Inr clargs, args_dict') \<Rightarrow>
               (case source of
                  PStr src \<Rightarrow> (Inr (py_split (clargs @ src)), args_dict')
                | _ \<Rightarrow> (Inl TypeError, args_dict'))))"

subsection \<open>\<^verbatim>\<open>collect_data\<close>\<close>

text \<open>
  \<^verbatim>\<open>
  def collect_data(args_dict):
      drive_conversion_ngrnas = []
      for num_grnas in range(1, 13):
          drive_conversions = []
          args_dict['NUM_GRNAS'] = num_grnas
          total_runs =20
          print(f"Running simulations for {num_grnas} gRNAs...")
          for i in range(total_runs):
              print(f"Run {i+1}/{total_runs} for {num_grnas} gRNAs")
              clargs = configure_slim_command_line(args_dict)
              slim_outcome = run_slim(clargs)
              parsed_result = parse_slim(slim_outcome)
              slim_result = float(parsed_result)
              drive_conversion = (slim_result - 0.5) / 0.5
              drive_conversions.append(drive_conversion)
          drive_conversion_ngrnas.append(calculate_average(drive_conversions))
      return drive_conversion_ngrnas
  \<close>
  The state the function acts on: the dictionary of the caller, the outside world that the
  simulator runs in, and the lines printed to the console. An exception leaves the loops
  at once, with the state as it is then. The list \<^verbatim>\<open>drive_conversions\<close> holds floats
  only; it is a list of floats here, handed to \<^verbatim>\<open>calculate_average\<close> as a list of
  values.
\<close>

record 'w state =
  args_dict :: pydict
  world :: 'w
  console :: "string list"

definition print :: "string \<Rightarrow> 'w state \<Rightarrow> 'w state" where
  "print line st = st\<lparr>console := console st @ [line]\<rparr>"

text \<open>The expression \<^verbatim>\<open>(slim_result - 0.5) / 0.5\<close>.\<close>

definition drive_conversion :: "pyfloat \<Rightarrow> error + pyfloat" where
  "drive_conversion slim_result =
     float_truediv (float_sub slim_result (Finite (1 / 2))) (Finite (1 / 2))"

text \<open>One pass of the body of the inner loop: a simulator run and its drive conversion.\<close>

definition one_run ::
  "(pyfloat \<Rightarrow> string) \<Rightarrow> 'w process \<Rightarrow> int \<Rightarrow> int \<Rightarrow> int \<Rightarrow> 'w state \<Rightarrow>
     (error + pyfloat) \<times> 'w state" where
  "one_run float_repr popen num_grnas total_runs i st =
     (let st1 = print (''Run '' @ str_int (i + 1) @ ''/'' @ str_int total_runs @ '' for '' @
                         str_int num_grnas @ '' gRNAs'') st
      in case configure_slim_command_line float_repr (args_dict st1) of
           (Inl e, d) \<Rightarrow> (Inl e, st1\<lparr>args_dict := d\<rparr>)
         | (Inr clargs, d) \<Rightarrow>
             (case run_slim popen clargs (world st1) of
                (Inl e, w) \<Rightarrow> (Inl e, st1\<lparr>args_dict := d, world := w\<rparr>)
              | (Inr slim_outcome, w) \<Rightarrow>
                  (let st2 = st1\<lparr>args_dict := d, world := w\<rparr> in
                   case parse_slim slim_outcome of
                     Inl e \<Rightarrow> (Inl e, st2)
                   | Inr parsed_result \<Rightarrow>
                       (case py_float parsed_result of
                          Inl e \<Rightarrow> (Inl e, st2)
                        | Inr slim_result \<Rightarrow> (drive_conversion slim_result, st2)))))"

text \<open>The inner loop, over the values of \<^verbatim>\<open>i\<close> still to come.\<close>

fun runs_loop ::
  "(pyfloat \<Rightarrow> string) \<Rightarrow> 'w process \<Rightarrow> int \<Rightarrow> int \<Rightarrow> int list \<Rightarrow> pyfloat list \<Rightarrow> 'w state \<Rightarrow>
     (error + pyfloat list) \<times> 'w state" where
  "runs_loop float_repr popen num_grnas total_runs [] drive_conversions st =
     (Inr drive_conversions, st)"
| "runs_loop float_repr popen num_grnas total_runs (i # is) drive_conversions st =
     (case one_run float_repr popen num_grnas total_runs i st of
        (Inl e, st') \<Rightarrow> (Inl e, st')
      | (Inr dc, st') \<Rightarrow>
          runs_loop float_repr popen num_grnas total_runs is (drive_conversions @ [dc]) st')"

text \<open>The body of the outer loop for one value of \<^verbatim>\<open>num_grnas\<close>.\<close>

definition sweep_point ::
  "(pyfloat \<Rightarrow> string) \<Rightarrow> 'w process \<Rightarrow> int \<Rightarrow> 'w state \<Rightarrow> (error + pyval) \<times> 'w state" where
  "sweep_point float_repr popen num_grnas st =
     (let st1 = st\<lparr>args_dict := dict_set (args_dict st) ''NUM_GRNAS'' (PInt num_grnas)\<rparr>;
          total_runs = 20;
          st2 = print (''Running simulations for '' @ str_int num_grnas @ '' gRNAs...'') st1
      in case runs_loop float_repr popen num_grnas total_runs [0..total_runs - 1] [] st2 of
           (Inl e, st3) \<Rightarrow> (Inl e, st3)
         | (Inr drive_conversions, st3) \<Rightarrow>
             (calculate_average (map PFloat drive_conversions), st3))"

text \<open>The outer loop, over the values of \<^verbatim>\<open>num_grnas\<close> still to come.\<close>

fun sweep_loop ::
  "(pyfloat \<Rightarrow> string) \<Rightarrow> 'w process \<Rightarrow> int list \<Rightarrow> pyval list \<Rightarrow> 'w state \<Rightarrow>
     (error + pyval list) \<times> 'w state" where
  "sweep_loop float_repr popen [] drive_conversion_ngrnas st = (Inr drive_conversion_ngrnas, st)"
| "sweep_loop float_repr popen (num_grnas # rest) drive_conversion_ngrnas st =
     (case sweep_point float_repr popen num_grnas st of
        (Inl e, st') \<Rightarrow> (Inl e, st')
      | (Inr average, st') \<Rightarrow>
          sweep_loop float_repr popen rest (drive_conversion_ngrnas @ [average]) st')"

definition collect_data ::
  "(pyfloat \<Rightarrow> string) \<Rightarrow> 'w process \<Rightarrow> 'w state \<Rightarrow> (error + pyval list) \<times> 'w state" where
  "collect_data float_repr popen st = sweep_loop float_repr popen [1..12] [] st"

subsection \<open>Notions used in the statements\<close>

text \<open>The sum of floats added one after another to 0.0, each addition rounding.\<close>

definition float_sum :: "pyfloat list \<Rightarrow> pyfloat" where
  "float_sum xs = foldl float_add (Finite 0) xs"

text \<open>A string with no whitespace character: \<^verbatim>\<open>split()\<close> keeps it in one piece.\<close>

definition no_space :: "string \<Rightarrow> bool" where
  "no_space s = list_all (\<lambda>c. \<not> py_isspace c) s"

text \<open>
  The text after \<^verbatim>\<open>NAME=\<close> in an option: \<^verbatim>\<open>T\<close> or \<^verbatim>\<open>F\<close> for a boolean, the string
  form of any other value.
\<close>

definition flag_value :: "(pyfloat \<Rightarrow> string) \<Rightarrow> pyval \<Rightarrow> string" where
  "flag_value float_repr v =
     (case v of PBool b \<Rightarrow> (if b then ''T'' else ''F'') | _ \<Rightarrow> py_str float_repr v)"

text \<open>The entries of a mapping other than \<^verbatim>\<open>source\<close>, in order.\<close>

definition parameters :: "pydict \<Rightarrow> pydict" where
  "parameters d = filter (\<lambda>(k, v). k \<noteq> ''source'') d"

text \<open>The two tokens \<^verbatim>\<open>-d\<close> and \<^verbatim>\<open>NAME=VALUE\<close> of every parameter, in order.\<close>

definition option_tokens :: "(pyfloat \<Rightarrow> string) \<Rightarrow> pydict \<Rightarrow> string list" where
  "option_tokens float_repr d =
     concat (map (\<lambda>(k, v). [''-d'', k @ ''='' @ flag_value float_repr v]) (parameters d))"

text \<open>What one pass of the loop of the command builder appends to \<^verbatim>\<open>clargs\<close>.\<close>

definition segment :: "(pyfloat \<Rightarrow> string) \<Rightarrow> string \<times> pyval \<Rightarrow> string" where
  "segment float_repr e = ''-d '' @ fst e @ ''='' @ flag_value float_repr (snd e) @ '' ''"

text \<open>
  A process together with a record of its invocations: the world is extended by the list
  of the argument lists it was started with, oldest first.
\<close>

definition recording :: "'w process \<Rightarrow> (string list list \<times> 'w) process" where
  "recording popen command_line_args lw =
     (case popen command_line_args (snd lw) of
        (r, w') \<Rightarrow> (r, (fst lw @ [command_line_args], w')))"

text \<open>The line printed before run \<open>i\<close>.\<close>

definition run_line :: "int \<Rightarrow> int \<Rightarrow> int \<Rightarrow> string" where
  "run_line i total_runs num_grnas =
     ''Run '' @ str_int (i + 1) @ ''/'' @ str_int total_runs @ '' for '' @
       str_int num_grnas @ '' gRNAs''"

text \<open>The mapping after the sweep points \<open>ks\<close> have been stored in it one after another.\<close>

definition sweep_dict :: "pydict \<Rightarrow> int list \<Rightarrow> pydict" where
  "sweep_dict d ks = (if ks = [] then d else dict_set d ''NUM_GRNAS'' (PInt (last ks)))"

text \<open>
  The passes of the outer loop as a chain: pass \<open>j\<close> takes state \<open>sts ! j\<close> to state
  \<open>sts ! Suc j\<close> at sweep point \<open>ks ! j\<close> and returns \<open>avgs ! j\<close>.
\<close>

definition sweep_chain ::
  "(pyfloat \<Rightarrow> string) \<Rightarrow> 'w process \<Rightarrow> int list \<Rightarrow> pyval list \<Rightarrow> 'w state list \<Rightarrow> bool" where
  "sweep_chain float_repr popen ks avgs sts =
     (length avgs = length ks \<and> length sts = Suc (length ks) \<and>
      list_all (\<lambda>j. sweep_point float_repr popen (ks ! j) (sts ! j) = (Inr (avgs ! j), sts ! Suc j))
        [0..<length ks])"

text \<open>
  A simulator stubbed so that every run gives the parsed value \<open>v\<close>: whatever the
  arguments and the world, it starts, and \<^verbatim>\<open>parse_slim\<close> returns \<open>v\<close> on its output.
\<close>

definition yields :: "'w process \<Rightarrow> string \<Rightarrow> bool" where
  "yields popen v =
     (\<forall>command_line_args w.
        case fst (popen command_line_args w) of
          Inl e \<Rightarrow> False
        | Inr (out, err) \<Rightarrow> parse_slim out = Inr v)"

text \<open>The stub that prints the same text on every run and leaves the world as it is.\<close>

definition fixed_output :: "string \<Rightarrow> 'w process" where
  "fixed_output out = (\<lambda>command_line_args w. (Inr (out, []), w))"

text \<open>
  Inputs for the examples: a string form for floats (the example mappings hold none), a
  mapping, and a state on it, with and without a record of invocations.
\<close>

definition example_repr :: "pyfloat \<Rightarrow> string" where
  "example_repr x = ''0.0''"

definition example_args :: pydict where
  "example_args =
     [(''source'', PStr ''one_gen_full_modified.slim''), (''CAPACITY'', PInt 50000000),
      (''DROP_SIZE'', PInt 1000), (''VERBOSE'', PBool False)]"

definition example_state :: "unit state" where
  "example_state = \<lparr>args_dict = example_args, world = (), console = []\<rparr>"

definition example_recording_state :: "(string list list \<times> unit) state" where
  "example_recording_state = \<lparr>args_dict = example_args, world = ([], ()), console = []\<rparr>"


section \<open>Properties\<close>

subsection \<open>Evaluation of concrete inputs\<close>

lemma floor_rat_numeral_div: "\<lfloor>numeral a / numeral b :: rat\<rfloor> = numeral a div numeral b"
  by (metis floor_divide_of_int_eq of_int_numeral)

lemma ceiling_rat_numeral_div:
  "\<lceil>numeral a / numeral b :: rat\<rceil> = - (- numeral a div numeral b)"
  by (metis ceiling_divide_eq_div of_int_numeral)

lemmas float_eval =
  round64_def ilog2_def bit_length.simps pow2_def round_half_even_def Let_def
  floor_rat_numeral_div ceiling_rat_numeral_div

lemmas parse_eval =
  parse_slim_def py_split_sep_def py_split_def startswith_def marker_def py_isspace_def
  marker_lines_def Let_def

lemmas number_eval =
  py_float_def float_strip_def float_isspace_def lower_def is_digit_def digit_val_def
  int_of_digits_def pow10_def exponent_part_def

lemmas string_eval = str_int_def str_digits.simps digit_char_def

text \<open>
  The rounding on known values: the doubles nearest to 0.1 and to 1/3, and two ties
  between neighbours of spacing 2 that go to the even significand.
\<close>

lemma round64_known_values:
  "round64 (1 / 10) = Finite (3602879701896397 / 36028797018963968)"
  "round64 (1 / 3) = Finite (6004799503160661 / 18014398509481984)"
  "round64 (9007199254740993) = Finite 9007199254740992"
  "round64 (9007199254740995) = Finite 9007199254740996"
  by (simp_all add: float_eval)

subsection \<open>The output parser\<close>

text \<open>
  When every marker line has at least eight fields, the loop ends with \<^verbatim>\<open>dr_rate\<close> bound
  to field 7 of the last marker line, or as it was when there is no marker line.
\<close>

lemma parse_loop_all_long:
  assumes "\<forall>l \<in> set (filter (\<lambda>line. startswith line marker) lines). 7 < length (py_split l)"
  shows "parse_loop lines dr =
           Inr (if filter (\<lambda>line. startswith line marker) lines = [] then dr
                else Some (py_split (last (filter (\<lambda>line. startswith line marker) lines)) ! 7))"
  using assms
proof (induction lines arbitrary: dr)
  case Nil
  then show ?case by simp
next
  case (Cons line lines)
  from Cons.prems
  have rest: "\<forall>l \<in> set (filter (\<lambda>line. startswith line marker) lines). 7 < length (py_split l)"
    by simp
  show ?case
  proof (cases "startswith line marker")
    case True
    with Cons.prems have long: "7 < length (py_split line)" by simp
    show ?thesis using True long Cons.IH [OF rest] by (simp add: Let_def)
  next
    case False
    show ?thesis using False Cons.IH [OF rest] by simp
  qed
qed

lemma parse_loop_no_marker:
  "filter (\<lambda>line. startswith line marker) lines = [] \<Longrightarrow> parse_loop lines dr = Inr dr"
  using parse_loop_all_long [of lines dr] by simp

text \<open>
  C1. The claim asks that a text with no line starting with \<^verbatim>\<open>"PYTHON:: "\<close> makes
  \<^verbatim>\<open>parse_slim\<close> raise a designated parsing error, not an unbound-variable fault. The
  code has no such error: on every text without a marker line it reaches
  \<^verbatim>\<open>return dr_rate\<close> with the local unbound, which is \<^verbatim>\<open>UnboundLocalError\<close>.
\<close>

theorem parse_slim_no_marker_unbound:
  "marker_lines slim_string = [] \<Longrightarrow> parse_slim slim_string = Inl UnboundLocalError"
  by (simp add: parse_slim_def marker_lines_def parse_loop_no_marker)

theorem parse_slim_no_marker_unbound_witness:
  "marker_lines ''no drive output'' = [] \<and>
   parse_slim ''no drive output'' = Inl UnboundLocalError"
  using parse_slim_no_marker_unbound [of "''no drive output''"]
  by (simp add: parse_eval)

text \<open>
  C2, as stated: on the text \<^verbatim>\<open>PYTHON:: a b c d e f g 0.73 h\<close> the parser returns
  \<^verbatim>\<open>0.73\<close>. It does not: the marker \<^verbatim>\<open>PYTHON::\<close> is itself field 0 of the line, so
  field 7 is \<^verbatim>\<open>g\<close>.
\<close>

theorem parse_slim_example_counterexample:
  "parse_slim ''PYTHON:: a b c d e f g 0.73 h'' \<noteq> Inr ''0.73''"
  by (simp add: parse_eval)

text \<open>
  C2, amended: on the text \<^verbatim>\<open>PYTHON:: a b c d e f g 0.73 h\<close> the parser returns
  \<^verbatim>\<open>g\<close>, field 7 of the line when the marker counts as field 0; it returns \<^verbatim>\<open>0.73\<close> on
  the text \<^verbatim>\<open>PYTHON:: a b c d e f 0.73 h\<close>.
\<close>

theorem parse_slim_example:
  "parse_slim ''PYTHON:: a b c d e f g 0.73 h'' = Inr ''g'' \<and>
   parse_slim ''PYTHON:: a b c d e f 0.73 h'' = Inr ''0.73''"
  by (simp add: parse_eval)

text \<open>
  C3, as stated: on every text with at least one marker line the parser returns field 7 of
  the last marker line. It does not when an earlier marker line is too short: the text of
  the two lines \<^verbatim>\<open>PYTHON:: a\<close> and \<^verbatim>\<open>PYTHON:: a b c d e f g h\<close> has \<^verbatim>\<open>g\<close> as field 7 of
  its last marker line, and the parser raises \<^verbatim>\<open>IndexError\<close> at the first line.
\<close>

theorem parse_slim_last_marker_counterexample:
  "marker_lines (''PYTHON:: a'' @ [CHR 0x0A] @ ''PYTHON:: a b c d e f g h'') =
     [''PYTHON:: a'', ''PYTHON:: a b c d e f g h''] \<and>
   py_split ''PYTHON:: a b c d e f g h'' ! 7 = ''g'' \<and>
   parse_slim (''PYTHON:: a'' @ [CHR 0x0A] @ ''PYTHON:: a b c d e f g h'') = Inl IndexError"
  by (simp add: parse_eval)

text \<open>
  C3, amended: on every text that has a marker line and whose marker lines all have at
  least eight whitespace-delimited fields, the parser returns field 7 of the last marker
  line.
\<close>

theorem parse_slim_last_marker:
  assumes "marker_lines slim_string \<noteq> []"
    and "\<forall>l \<in> set (marker_lines slim_string). 8 \<le> length (py_split l)"
  shows "parse_slim slim_string = Inr (py_split (last (marker_lines slim_string)) ! 7)"
proof -
  from assms(2)
  have "\<forall>l \<in> set (filter (\<lambda>line. startswith line marker)
            (py_split_sep (CHR 0x0A) slim_string)). 7 < length (py_split l)"
    by (auto simp: marker_lines_def)
  from parse_loop_all_long [OF this, of None] assms(1) show ?thesis
    by (simp add: parse_slim_def marker_lines_def)
qed

theorem parse_slim_last_marker_witness:
  "marker_lines (''PYTHON:: a b c d e f 0.1 h'' @ [CHR 0x0A] @ ''log'' @ [CHR 0x0A] @
                 ''PYTHON:: a b c d e f 0.73 h'') \<noteq> [] \<and>
   parse_slim (''PYTHON:: a b c d e f 0.1 h'' @ [CHR 0x0A] @ ''log'' @ [CHR 0x0A] @
               ''PYTHON:: a b c d e f 0.73 h'') = Inr ''0.73''"
  using parse_slim_last_marker
    [of "''PYTHON:: a b c d e f 0.1 h'' @ [CHR 0x0A] @ ''log'' @ [CHR 0x0A] @
         ''PYTHON:: a b c d e f 0.73 h''"]
  by (simp add: parse_eval)

subsection \<open>The linear transform\<close>

text \<open>
  C6. The transform \<^verbatim>\<open>(value - 0.5) / 0.5\<close> of \<^verbatim>\<open>collect_data\<close> maps 0.5 to exactly 0.0
  and 1.0 to exactly 1.0: both differences and both quotients are representable, so no
  rounding takes place.
\<close>

theorem drive_conversion_endpoints:
  "drive_conversion (Finite (1 / 2)) = Inr (Finite 0) \<and>
   drive_conversion (Finite 1) = Inr (Finite 1)"
  by (simp add: drive_conversion_def float_truediv_def float_sub_def float_eval)

subsection \<open>Splitting a command line\<close>

text \<open>
  A piece without whitespace passes through \<^verbatim>\<open>split()\<close> whole: it is added to the token
  being read, and the blank after it ends the token.
\<close>

lemma split_ws_no_space:
  "no_space t \<Longrightarrow> split_ws (t @ rest) cur = split_ws rest (cur @ t)"
  by (induction t arbitrary: cur) (simp_all add: no_space_def)

lemma split_ws_token:
  assumes "no_space t" "t \<noteq> []"
  shows "split_ws (t @ CHR '' '' # rest) [] = t # split_ws rest []"
  using assms by (simp add: split_ws_no_space py_isspace_def)

lemma split_ws_last_token:
  assumes "no_space t" "t \<noteq> []"
  shows "split_ws t [] = [t]"
  using assms split_ws_no_space [of t "[]" "[]"] by simp

lemma no_space_flag_value:
  "no_space (py_str float_repr v) \<Longrightarrow> no_space (flag_value float_repr v)"
  by (cases v) (simp_all add: flag_value_def no_space_def py_isspace_def)

lemma split_ws_segments:
  assumes "\<forall>e \<in> set es. no_space (fst e) \<and> no_space (py_str float_repr (snd e))"
    and "no_space src" "src \<noteq> []"
  shows "split_ws (concat (map (segment float_repr) es) @ src) [] =
           concat (map (\<lambda>(k, v). [''-d'', k @ ''='' @ flag_value float_repr v]) es) @ [src]"
  using assms(1)
proof (induction es)
  case Nil
  then show ?case using assms(2,3) by (simp add: split_ws_last_token)
next
  case (Cons e es)
  obtain k v where e: "e = (k, v)" by (cases e)
  from Cons.prems e have k: "no_space k" and v: "no_space (flag_value float_repr v)"
    by (simp_all add: no_space_flag_value)
  have d: "no_space ''-d''" by (simp add: no_space_def py_isspace_def)
  have kv: "no_space (k @ ''='' @ flag_value float_repr v)"
    using k v by (simp add: no_space_def py_isspace_def)
  have "split_ws (concat (map (segment float_repr) (e # es)) @ src) [] =
        split_ws (''-d'' @ CHR '' '' # ((k @ ''='' @ flag_value float_repr v) @ CHR '' '' #
                   (concat (map (segment float_repr) es) @ src))) []"
    by (simp add: e segment_def)
  also have "\<dots> = ''-d'' # split_ws ((k @ ''='' @ flag_value float_repr v) @ CHR '' '' #
                   (concat (map (segment float_repr) es) @ src)) []"
    by (rule split_ws_token [OF d]) simp
  also have "\<dots> = ''-d'' # (k @ ''='' @ flag_value float_repr v) #
                     split_ws (concat (map (segment float_repr) es) @ src) []"
    using split_ws_token [OF kv] by simp
  finally show ?case using Cons.IH Cons.prems by (simp add: e)
qed

subsection \<open>The command builder\<close>

text \<open>
  With distinct keys, looking up the key of an item gives the value of that item, so the
  loop appends one segment per parameter, in order, and never touches the mapping.
\<close>

lemma dict_get_distinct:
  "distinct (map fst d) \<Longrightarrow> (k, v) \<in> set d \<Longrightarrow> dict_get d k = Inr v"
  by (simp add: dict_get_def)

lemma clargs_loop_distinct:
  assumes "distinct (map fst d)" "set es \<subseteq> set d"
  shows "clargs_loop float_repr (map fst es) clargs d =
           (Inr (clargs @ concat (map (segment float_repr) (parameters es))), d)"
  using assms(2)
proof (induction es arbitrary: clargs)
  case Nil
  then show ?case by (simp add: parameters_def)
next
  case (Cons e es)
  obtain k v where e: "e = (k, v)" by (cases e)
  with Cons.prems have "(k, v) \<in> set d" by simp
  from dict_get_distinct [OF assms(1) this] have get: "dict_get d k = Inr v" .
  from Cons.prems have rest: "set es \<subseteq> set d" by simp
  show ?case
    using get Cons.IH [OF rest]
    by (cases v) (simp_all add: e parameters_def segment_def flag_value_def)
qed

lemma clargs_loop_frame: "snd (clargs_loop float_repr ks clargs d) = d"
  by (induction ks arbitrary: clargs) (simp_all split: sum.splits pyval.splits)

lemma configure_frame:
  "snd (configure_slim_command_line float_repr args) = args"
proof -
  have "snd (clargs_loop float_repr (map fst args) ''slim '' args) = args"
    by (rule clargs_loop_frame)
  then show ?thesis
    by (auto simp: configure_slim_command_line_def split: sum.splits prod.splits pyval.splits)
qed

lemma configure_tokens:
  assumes "distinct (map fst d)"
    and "dict_get d ''source'' = Inr (PStr src)"
    and "src \<noteq> []" and "no_space src"
    and "\<forall>(k, v) \<in> set d. k \<noteq> ''source'' \<longrightarrow> no_space k \<and> no_space (py_str float_repr v)"
  shows "configure_slim_command_line float_repr d =
           (Inr (''slim'' # option_tokens float_repr d @ [src]), d)"
proof -
  have loop: "clargs_loop float_repr (map fst d) ''slim '' d =
                (Inr (''slim '' @ concat (map (segment float_repr) (parameters d))), d)"
    using clargs_loop_distinct [OF assms(1), of d] by simp
  have ok: "\<forall>e \<in> set (parameters d). no_space (fst e) \<and> no_space (py_str float_repr (snd e))"
    using assms(5) by (auto simp: parameters_def)
  have s: "no_space ''slim''" by (simp add: no_space_def py_isspace_def)
  have "py_split ((''slim '' @ concat (map (segment float_repr) (parameters d))) @ src) =
        split_ws (''slim'' @ CHR '' '' # (concat (map (segment float_repr) (parameters d)) @ src)) []"
    by (simp add: py_split_def)
  also have "\<dots> = ''slim'' # split_ws (concat (map (segment float_repr) (parameters d)) @ src) []"
    by (rule split_ws_token [OF s]) simp
  also have "\<dots> = ''slim'' # option_tokens float_repr d @ [src]"
    using split_ws_segments [OF ok assms(4,3)] by (simp add: option_tokens_def)
  finally show ?thesis
    using loop assms(2) by (simp add: configure_slim_command_line_def)
qed

lemma length_option_tokens: "length (option_tokens float_repr d) = 2 * length (parameters d)"
  by (induction d) (auto simp: option_tokens_def parameters_def)

text \<open>
  C4, as stated: for every mapping with a \<^verbatim>\<open>source\<close> entry and \<open>N\<close> other entries the
  command has \<open>1 + 2 * N + 1\<close> tokens and ends with the source file path. It does not when
  a name contains whitespace, because the command is put together as one string and then
  split: for the mapping with the single entry \<^verbatim>\<open>source = "my model.slim"\<close>, where
  \<open>N = 0\<close>, the command has three tokens and its last token is \<^verbatim>\<open>model.slim\<close>.
\<close>

theorem configure_slim_command_line_tokens_counterexample:
  "dict_get [(''source'', PStr ''my model.slim'')] ''source'' = Inr (PStr ''my model.slim'') \<and>
   parameters [(''source'', PStr ''my model.slim'')] = [] \<and>
   fst (configure_slim_command_line example_repr [(''source'', PStr ''my model.slim'')]) =
     Inr [''slim'', ''my'', ''model.slim'']"
  by (simp add: configure_slim_command_line_def dict_get_def parameters_def py_split_def
      py_isspace_def)

text \<open>
  C4, amended: for every mapping whose \<^verbatim>\<open>source\<close> entry is a non-empty string without
  whitespace and whose \<open>N\<close> other entries have names and printed values without
  whitespace, the command has \<open>1 + 2 * N + 1\<close> tokens: \<^verbatim>\<open>slim\<close> first, then for every
  other entry in order the pair \<^verbatim>\<open>-d\<close>, \<^verbatim>\<open>NAME=VALUE\<close>, with a boolean value printed as
  exactly \<^verbatim>\<open>T\<close> or \<^verbatim>\<open>F\<close>, and the source file path last.
\<close>

theorem configure_slim_command_line_tokens:
  assumes "distinct (map fst d)"
    and "dict_get d ''source'' = Inr (PStr src)"
    and "src \<noteq> []" and "no_space src"
    and "\<forall>(k, v) \<in> set d. k \<noteq> ''source'' \<longrightarrow> no_space k \<and> no_space (py_str float_repr v)"
  shows "\<exists>toks. fst (configure_slim_command_line float_repr d) = Inr toks \<and>
           length toks = 1 + 2 * length (parameters d) + 1 \<and>
           hd toks = ''slim'' \<and> last toks = src \<and>
           toks = ''slim'' # option_tokens float_repr d @ [src] \<and>
           (\<forall>k b. (k, PBool b) \<in> set (parameters d) \<longrightarrow>
              k @ ''='' @ (if b then ''T'' else ''F'') \<in> set toks)"
proof -
  let ?toks = "''slim'' # option_tokens float_repr d @ [src]"
  have "fst (configure_slim_command_line float_repr d) = Inr ?toks"
    using configure_tokens [OF assms] by simp
  moreover have "length ?toks = 1 + 2 * length (parameters d) + 1"
    by (simp add: length_option_tokens)
  moreover have "\<forall>k b. (k, PBool b) \<in> set (parameters d) \<longrightarrow>
      k @ ''='' @ (if b then ''T'' else ''F'') \<in> set ?toks"
    by (force simp: option_tokens_def flag_value_def)
  ultimately show ?thesis by simp
qed

theorem configure_slim_command_line_tokens_witness:
  "distinct (map fst example_args) \<and>
   dict_get example_args ''source'' = Inr (PStr ''one_gen_full_modified.slim'') \<and>
   length (parameters example_args) = 3 \<and>
   fst (configure_slim_command_line example_repr example_args) =
     Inr [''slim'', ''-d'', ''CAPACITY=50000000'', ''-d'', ''DROP_SIZE=1000'',
          ''-d'', ''VERBOSE=F'', ''one_gen_full_modified.slim'']"
  using configure_slim_command_line_tokens
    [of example_args "''one_gen_full_modified.slim''" example_repr]
  by (simp add: example_args_def dict_get_def parameters_def option_tokens_def flag_value_def
      no_space_def py_isspace_def string_eval)

text \<open>
  C5. The command builder has no side effect: it prints nothing and starts no process, and
  the mapping it was given is the same after the call, whether it returns or raises.
\<close>

theorem configure_slim_command_line_no_side_effect:
  "snd (configure_slim_command_line float_repr args) = args"
  by (rule configure_frame)

subsection \<open>Sums and averages of numbers\<close>

text \<open>
  An integer of at most 53 bits is a float: its conversion is exact. This covers the
  length of every list of at most \<open>2 ^ 53\<close> elements.
\<close>

lemma bit_length_bounds:
  "0 < n \<Longrightarrow> 2 ^ (bit_length n - 1) \<le> n \<and> n < 2 ^ bit_length n"
proof (induction n rule: bit_length.induct)
  case (1 n)
  show ?case
  proof (cases "n div 2 = 0")
    case True
    with "1.prems" have "n = 1" by presburger
    then show ?thesis by (simp add: bit_length.simps)
  next
    case False
    with "1.prems" have pos: "0 < n div 2" by presburger
    from "1.prems" have n: "\<not> n \<le> 0" by simp
    from "1.IH" [OF n pos]
    have lo: "2 ^ (bit_length (n div 2) - 1) \<le> n div 2" and hi: "n div 2 < 2 ^ bit_length (n div 2)"
      by simp_all
    from pos have bl: "0 < bit_length (n div 2)" by (subst bit_length.simps) simp
    have eq: "bit_length n = Suc (bit_length (n div 2))"
      using n by (subst bit_length.simps) simp
    from bl have p: "(2::int) ^ bit_length (n div 2) = 2 * 2 ^ (bit_length (n div 2) - 1)"
      by (cases "bit_length (n div 2)") simp_all
    have "2 * (n div 2) \<le> n" by presburger
    with lo p have 1: "2 ^ bit_length (n div 2) \<le> n" by linarith
    have "n < 2 * (n div 2) + 2" by presburger
    with hi have 2: "n < 2 * 2 ^ bit_length (n div 2)" by linarith
    from 1 2 show ?thesis by (simp add: eq)
  qed
qed

lemma round_half_even_of_int: "round_half_even (rat_of_int m) = m"
  by (simp add: round_half_even_def Let_def)

lemma round64_int_exact:
  assumes "0 < n" "n \<le> 2 ^ 53"
  shows "round64 (rat_of_int n) = Finite (rat_of_int n)"
proof -
  define b where "b = bit_length n"
  from bit_length_bounds [OF assms(1)]
  have lo: "2 ^ (b - 1) \<le> n" and hi: "n < 2 ^ b" by (simp_all add: b_def)
  from assms(1) have b0: "0 < b" unfolding b_def by (subst bit_length.simps) simp
  have le: "(2::int) ^ (b - 1) \<le> 2 ^ 53" using lo assms(2) by linarith
  have b54: "b - 1 \<le> 53"
  proof (rule power_le_imp_le_exp [of "2::int"])
    show "(1::int) < 2" by simp
    show "(2::int) ^ (b - 1) \<le> 2 ^ 53" by (fact le)
  qed
  have e: "ilog2 \<bar>rat_of_int n\<bar> = int b - 1"
    using assms(1) by (simp add: ilog2_def b_def)
  have m: "max (int b - 1) (- 1022) = int b - 1" using b0 by simp
  show ?thesis
  proof (cases "b - 1 \<le> 52")
    case True
    then have q: "pow2 (int b - 1 - 52) = 1 / 2 ^ (52 - (b - 1))"
      using b0 by (auto simp: pow2_def nat_diff_distrib' intro: arg_cong [where f = "\<lambda>k. (1::rat) / 2 ^ k"] )
    have "rat_of_int n / (1 / 2 ^ (52 - (b - 1))) = rat_of_int (n * 2 ^ (52 - (b - 1)))" by simp
    then have r: "rat_of_int (round_half_even (rat_of_int n / pow2 (int b - 1 - 52))) *
               pow2 (int b - 1 - 52) = rat_of_int n"
      unfolding q by (simp only: round_half_even_of_int) simp
    have small: "rat_of_int n < pow2 1024"
    proof -
      have "rat_of_int n \<le> rat_of_int (2 ^ 53)" using assms(2) by (simp only: of_int_le_iff)
      also have "\<dots> < pow2 1024" by (simp add: pow2_def)
      finally show ?thesis .
    qed
    have neg: "\<not> rat_of_int n \<le> - pow2 1024" using assms(1) by (simp add: pow2_def)
    from assms(1) have nz: "rat_of_int n \<noteq> 0" by simp
    show ?thesis
      unfolding round64_def e m Let_def r using small neg nz by simp
  next
    case False
    with b54 have b: "b - 1 = 53" by simp
    with lo assms(2) have n: "n = 2 ^ 53" by simp
    show ?thesis unfolding n by (simp add: float_eval)
  qed
qed


lemma float_of_int_exact:
  assumes "0 \<le> n" "n \<le> 2 ^ 53"
  shows "float_of_int n = Inr (Finite (rat_of_int n))"
proof (cases "n = 0")
  case True
  then show ?thesis by (simp add: float_of_int_def round64_def)
next
  case False
  with assms(1) have "0 < n" by simp
  from round64_int_exact [OF this assms(2)] show ?thesis by (simp add: float_of_int_def)
qed


lemma sum_loop_floats: "sum_loop (map PFloat xs) (PFloat u) = Inr (PFloat (foldl float_add u xs))"
  by (induction xs arbitrary: u) (simp_all add: py_add_def)


lemma py_sum_floats: "xs \<noteq> [] \<Longrightarrow> py_sum (map PFloat xs) = Inr (PFloat (float_sum xs))"
  by (cases xs)
    (simp_all add: py_sum_def py_add_def float_of_int_def round64_def sum_loop_floats float_sum_def)


lemma calculate_average_floats:
  assumes "xs \<noteq> []" "length xs \<le> 2 ^ 53"
  shows "calculate_average (map PFloat xs) =
           Inr (PFloat (ieee_div (float_sum xs) (Finite (rat_of_nat (length xs)))))"
proof -
  from assms(2) have "int (length xs) \<le> int (2 ^ 53)" by (simp only: of_nat_le_iff)
  then have le: "int (length xs) \<le> 2 ^ 53" by simp
  have "float_of_int (int (length xs)) = Inr (Finite (rat_of_int (int (length xs))))"
    by (rule float_of_int_exact [OF _ le]) simp
  then have c: "float_of_int (int (length xs)) = Inr (Finite (rat_of_nat (length xs)))"
    by simp
  from assms(1) have nz: "Finite (rat_of_nat (length xs)) \<noteq> Finite 0" by simp
  have s: "py_sum (map PFloat xs) = Inr (PFloat (float_sum xs))"
    by (rule py_sum_floats [OF assms(1)])
  have pos: "0 < int (length (map PFloat xs))" using assms(1) by simp
  have d: "py_truediv (PFloat (float_sum xs)) (PInt (int (length xs))) =
        Inr (PFloat (ieee_div (float_sum xs) (Finite (rat_of_nat (length xs)))))"
    using nz by (simp add: py_truediv_def c float_quotient_def float_truediv_def)
  show ?thesis
    unfolding calculate_average_def s using pos d by (simp add: Let_def)
qed

lemma calculate_average_20:
  assumes "length xs = 20"
  shows "calculate_average (map PFloat xs) = Inr (PFloat (ieee_div (float_sum xs) (Finite 20)))"
proof -
  from assms have "xs \<noteq> []" by auto
  from calculate_average_floats [OF this] assms show ?thesis by simp
qed




subsection \<open>The loops of the aggregator\<close>

text \<open>
  What a pass that completes has done: the command was built from the mapping as it
  stands, the process ran once on it, its output parsed and converted; the mapping is the
  same afterwards, and a recording process has one more entry.
\<close>

lemma one_run_InrE:
  assumes "one_run float_repr popen num_grnas total_runs i st = (Inr y, st')"
  obtains clargs out err w v x where
    "configure_slim_command_line float_repr (args_dict st) = (Inr clargs, args_dict st)"
    "popen clargs (world st) = (Inr (out, err), w)"
    "parse_slim out = Inr v" "py_float v = Inr x" "drive_conversion x = Inr y"
    "st' = (print (run_line i total_runs num_grnas) st)\<lparr>world := w\<rparr>"
proof -
  obtain r d where c: "configure_slim_command_line float_repr (args_dict st) = (r, d)"
    by (cases "configure_slim_command_line float_repr (args_dict st)")
  have d: "d = args_dict st"
    using configure_frame [of float_repr "args_dict st"] c by simp
  obtain p w where p: "popen (case r of Inr clargs \<Rightarrow> clargs | Inl e \<Rightarrow> []) (world st) = (p, w)"
    by (cases "popen (case r of Inr clargs \<Rightarrow> clargs | Inl e \<Rightarrow> []) (world st)")
  show thesis
    using assms c d p
    by (auto simp: one_run_def run_slim_def Let_def print_def run_line_def
        split: sum.splits prod.splits intro!: that)
qed

lemma one_run_frame:
  assumes "one_run float_repr popen num_grnas total_runs i st = (r, st')"
  shows "args_dict st' = args_dict st"
proof -
  obtain c d where c: "configure_slim_command_line float_repr (args_dict st) = (c, d)"
    by (cases "configure_slim_command_line float_repr (args_dict st)")
  have d: "d = args_dict st"
    using configure_frame [of float_repr "args_dict st"] c by simp
  show ?thesis
    using assms c d
    by (auto simp: one_run_def run_slim_def Let_def print_def split: sum.splits prod.splits)
qed

lemma one_run_recorded:
  assumes "one_run float_repr (recording popen) num_grnas total_runs i st = (Inr y, st')"
  shows "map Inr (fst (world st')) =
           map Inr (fst (world st)) @ [fst (configure_slim_command_line float_repr (args_dict st))]"
  using assms
  by (elim one_run_InrE) (auto simp: recording_def print_def split: prod.splits)

lemma runs_loop_Inr:
  assumes "runs_loop float_repr popen num_grnas total_runs is dcs st = (Inr dcs', st')"
  shows "length dcs' = length dcs + length is \<and> args_dict st' = args_dict st"
  using assms
proof (induction "is" arbitrary: dcs st)
  case Nil
  then show ?case by simp
next
  case (Cons i "is")
  then obtain y st1 where
    1: "one_run float_repr popen num_grnas total_runs i st = (Inr y, st1)" and
    2: "runs_loop float_repr popen num_grnas total_runs is (dcs @ [y]) st1 = (Inr dcs', st')"
    by (auto split: sum.splits prod.splits)
  from Cons.IH [OF 2] one_run_frame [OF 1] show ?case by simp
qed

lemma runs_loop_recorded:
  assumes "runs_loop float_repr (recording popen) num_grnas total_runs is dcs st = (Inr dcs', st')"
  shows "map Inr (fst (world st')) =
           map Inr (fst (world st)) @
           replicate (length is) (fst (configure_slim_command_line float_repr (args_dict st)))"
  using assms
proof (induction "is" arbitrary: dcs st)
  case Nil
  then show ?case by simp
next
  case (Cons i "is")
  then obtain y st1 where
    1: "one_run float_repr (recording popen) num_grnas total_runs i st = (Inr y, st1)" and
    2: "runs_loop float_repr (recording popen) num_grnas total_runs is (dcs @ [y]) st1 =
          (Inr dcs', st')"
    by (auto split: sum.splits prod.splits)
  from Cons.IH [OF 2] one_run_recorded [OF 1] one_run_frame [OF 1]
  show ?case by (simp add: replicate_append_same)
qed

lemma sweep_point_InrE:
  assumes "sweep_point float_repr popen num_grnas st = (Inr average, st')"
  obtains dcs where
    "runs_loop float_repr popen num_grnas 20 [0..19] []
       (print (''Running simulations for '' @ str_int num_grnas @ '' gRNAs...'')
          (st\<lparr>args_dict := dict_set (args_dict st) ''NUM_GRNAS'' (PInt num_grnas)\<rparr>)) =
     (Inr dcs, st')"
    "length dcs = 20"
    "average = PFloat (ieee_div (float_sum dcs) (Finite 20))"
proof -
  let ?st2 = "print (''Running simulations for '' @ str_int num_grnas @ '' gRNAs...'')
          (st\<lparr>args_dict := dict_set (args_dict st) ''NUM_GRNAS'' (PInt num_grnas)\<rparr>)"
  from assms obtain dcs where
    1: "runs_loop float_repr popen num_grnas 20 [0..19] [] ?st2 = (Inr dcs, st')" and
    2: "calculate_average (map PFloat dcs) = Inr average"
    by (auto simp: sweep_point_def Let_def split: sum.splits prod.splits)
  from runs_loop_Inr [OF 1] have len: "length dcs = 20" by simp
  from calculate_average_20 [OF len] 2
  have "average = PFloat (ieee_div (float_sum dcs) (Finite 20))" by simp
  with 1 len show thesis by (rule that)
qed

text \<open>Storing under a key: the last value wins, and no other key is affected.\<close>

lemma dict_set_overwrite: "dict_set (dict_set d k v) k v' = dict_set d k v'"
  by (induction d) auto

lemma dict_get_set_same: "dict_get (dict_set d k v) k = Inr v"
  by (induction d) (auto simp: dict_get_def)

lemma dict_get_set_other: "k' \<noteq> k \<Longrightarrow> dict_get (dict_set d k v) k' = dict_get d k'"
  by (induction d) (auto simp: dict_get_def)

lemma sweep_point_frame:
  assumes "sweep_point float_repr popen num_grnas st = (Inr average, st')"
  shows "args_dict st' = dict_set (args_dict st) ''NUM_GRNAS'' (PInt num_grnas)"
  using assms
  by (elim sweep_point_InrE) (auto dest!: runs_loop_Inr simp: print_def)

lemma sweep_point_recorded:
  assumes "sweep_point float_repr (recording popen) num_grnas st = (Inr average, st')"
  shows "map Inr (fst (world st')) =
           map Inr (fst (world st)) @
           replicate 20 (fst (configure_slim_command_line float_repr
              (dict_set (args_dict st) ''NUM_GRNAS'' (PInt num_grnas))))"
  using assms
  by (elim sweep_point_InrE) (auto dest!: runs_loop_recorded simp: print_def)

text \<open>The outer loop, by induction on the sweep points still to come.\<close>

lemma sweep_loop_Inr:
  assumes "sweep_loop float_repr popen ks res st = (Inr res', st')"
  shows "length res' = length res + length ks \<and> args_dict st' = sweep_dict (args_dict st) ks"
  using assms
proof (induction ks arbitrary: res st)
  case Nil
  then show ?case by (simp add: sweep_dict_def)
next
  case (Cons k ks)
  then obtain a st1 where
    1: "sweep_point float_repr popen k st = (Inr a, st1)" and
    2: "sweep_loop float_repr popen ks (res @ [a]) st1 = (Inr res', st')"
    by (auto split: sum.splits prod.splits)
  from Cons.IH [OF 2] sweep_point_frame [OF 1] show ?case
    by (simp add: sweep_dict_def dict_set_overwrite)
qed

lemma sweep_loop_recorded:
  assumes "sweep_loop float_repr (recording popen) ks res st = (Inr res', st')"
  shows "map Inr (fst (world st')) =
           map Inr (fst (world st)) @
           concat (map (\<lambda>k. replicate 20 (fst (configure_slim_command_line float_repr
                      (dict_set (args_dict st) ''NUM_GRNAS'' (PInt k))))) ks)"
  using assms
proof (induction ks arbitrary: res st)
  case Nil
  then show ?case by simp
next
  case (Cons k ks)
  then obtain a st1 where
    1: "sweep_point float_repr (recording popen) k st = (Inr a, st1)" and
    2: "sweep_loop float_repr (recording popen) ks (res @ [a]) st1 = (Inr res', st')"
    by (auto split: sum.splits prod.splits)
  from Cons.IH [OF 2] sweep_point_frame [OF 1] sweep_point_recorded [OF 1] show ?case
    by (simp add: dict_set_overwrite)
qed

lemma sweep_loop_chain:
  assumes "sweep_loop float_repr popen ks res st = (Inr res', st')"
  shows "\<exists>avgs sts. res' = res @ avgs \<and> hd sts = st \<and> last sts = st' \<and>
           sweep_chain float_repr popen ks avgs sts"
  using assms
proof (induction ks arbitrary: res st)
  case Nil
  then have "res' = res @ [] \<and> hd [st] = st \<and> last [st] = st' \<and>
      sweep_chain float_repr popen [] [] [st]"
    by (simp add: sweep_chain_def)
  then show ?case by blast
next
  case (Cons k ks)
  then obtain a st1 where
    1: "sweep_point float_repr popen k st = (Inr a, st1)" and
    2: "sweep_loop float_repr popen ks (res @ [a]) st1 = (Inr res', st')"
    by (auto split: sum.splits prod.splits)
  from Cons.IH [OF 2] obtain avgs sts where
    r: "res' = (res @ [a]) @ avgs" and h: "hd sts = st1" and l: "last sts = st'" and
    c: "sweep_chain float_repr popen ks avgs sts"
    by blast
  from c have ne: "sts \<noteq> []" by (auto simp: sweep_chain_def)
  with h have s0: "sts ! 0 = st1" by (simp add: hd_conv_nth)
  have "sweep_chain float_repr popen (k # ks) (a # avgs) (st # sts)"
    unfolding sweep_chain_def list_all_iff
  proof (intro conjI ballI)
    fix j assume "j \<in> set [0..<length (k # ks)]"
    then have j: "j < Suc (length ks)" by auto
    show "sweep_point float_repr popen ((k # ks) ! j) ((st # sts) ! j) =
            (Inr ((a # avgs) ! j), (st # sts) ! Suc j)"
    proof (cases j)
      case 0
      then show ?thesis using 1 s0 by simp
    next
      case (Suc j')
      with j have "j' \<in> set [0..<length ks]" by simp
      with c have "sweep_point float_repr popen (ks ! j') (sts ! j') = (Inr (avgs ! j'), sts ! Suc j')"
        by (simp add: sweep_chain_def list_all_iff)
      then show ?thesis using Suc by simp
    qed
  qed (insert c, simp_all add: sweep_chain_def)
  moreover have "res' = res @ (a # avgs)" using r by simp
  moreover have "hd (st # sts) = st" by simp
  moreover have "last (st # sts) = st'" using l ne by simp
  ultimately show ?case by blast
qed

subsection \<open>A simulator that always yields the same value\<close>

text \<open>
  The command builder succeeds on every mapping with a string under \<^verbatim>\<open>source\<close>, so with
  a stubbed simulator every pass of the inner loop completes with the same drive conversion.
\<close>

lemma clargs_loop_ok:
  "set ks \<subseteq> fst ` set d \<Longrightarrow> \<exists>c. clargs_loop float_repr ks clargs d = (Inr c, d)"
proof (induction ks arbitrary: clargs)
  case Nil
  then show ?case by simp
next
  case (Cons k ks)
  then have "k \<in> fst ` set d" by simp
  then obtain v where "map_of d k = Some v"
    by (metis domD dom_map_of_conv_image_fst)
  then have get: "dict_get d k = Inr v" by (simp add: dict_get_def)
  from Cons.prems have "set ks \<subseteq> fst ` set d" by simp
  from Cons.IH [OF this] get show ?case by (cases v) simp_all
qed

lemma configure_ok:
  assumes "dict_get d ''source'' = Inr (PStr src)"
  shows "\<exists>clargs. configure_slim_command_line float_repr d = (Inr clargs, d)"
proof -
  from clargs_loop_ok [of "map fst d" d float_repr "''slim ''"]
  obtain c where "clargs_loop float_repr (map fst d) ''slim '' d = (Inr c, d)" by auto
  with assms show ?thesis by (simp add: configure_slim_command_line_def)
qed

lemma one_run_yields:
  assumes "yields popen v" "py_float v = Inr x" "drive_conversion x = Inr y"
    and "dict_get (args_dict st) ''source'' = Inr (PStr src)"
  shows "\<exists>st'. one_run float_repr popen num_grnas total_runs i st = (Inr y, st') \<and>
               args_dict st' = args_dict st"
proof -
  from configure_ok [OF assms(4)] obtain clargs where
    c: "configure_slim_command_line float_repr (args_dict st) = (Inr clargs, args_dict st)"
    by blast
  obtain r w where p: "popen clargs (world st) = (r, w)" by (cases "popen clargs (world st)")
  from assms(1) have "case fst (popen clargs (world st)) of
      Inl e \<Rightarrow> False | Inr (out, err) \<Rightarrow> parse_slim out = Inr v"
    unfolding yields_def by blast
  with p obtain out err where r: "r = Inr (out, err)" and v: "parse_slim out = Inr v"
    by (auto split: sum.splits)
  show ?thesis
    using c p r v assms(2,3)
    by (simp add: one_run_def run_slim_def Let_def print_def)
qed

lemma runs_loop_yields:
  assumes "yields popen v" "py_float v = Inr x" "drive_conversion x = Inr y"
    and "dict_get (args_dict st) ''source'' = Inr (PStr src)"
  shows "\<exists>st'. runs_loop float_repr popen num_grnas total_runs is dcs st =
                 (Inr (dcs @ replicate (length is) y), st') \<and>
               args_dict st' = args_dict st"
  using assms(4)
proof (induction "is" arbitrary: dcs st)
  case Nil
  then show ?case by simp
next
  case (Cons i "is")
  from one_run_yields [OF assms(1-3) Cons.prems] obtain st1 where
    1: "one_run float_repr popen num_grnas total_runs i st = (Inr y, st1)" and
    d: "args_dict st1 = args_dict st"
    by blast
  from Cons.prems d have "dict_get (args_dict st1) ''source'' = Inr (PStr src)" by simp
  from Cons.IH [OF this, of "dcs @ [y]"] 1 d show ?case
    by (auto simp: replicate_append_same)
qed

lemma sweep_point_yields:
  assumes "yields popen v" "py_float v = Inr x" "drive_conversion x = Inr y"
    and "dict_get (args_dict st) ''source'' = Inr (PStr src)"
  shows "\<exists>st'. sweep_point float_repr popen num_grnas st =
                 (Inr (PFloat (ieee_div (float_sum (replicate 20 y)) (Finite 20))), st') \<and>
               dict_get (args_dict st') ''source'' = Inr (PStr src)"
proof -
  let ?st2 = "print (''Running simulations for '' @ str_int num_grnas @ '' gRNAs...'')
          (st\<lparr>args_dict := dict_set (args_dict st) ''NUM_GRNAS'' (PInt num_grnas)\<rparr>)"
  have src: "dict_get (args_dict ?st2) ''source'' = Inr (PStr src)"
    using assms(4) by (simp add: print_def dict_get_set_other)
  from runs_loop_yields [OF assms(1-3) src, of float_repr num_grnas 20 "[0..19]" "[]"]
  obtain st' where
    1: "runs_loop float_repr popen num_grnas 20 [0..19] [] ?st2 = (Inr (replicate 20 y), st')" and
    d: "args_dict st' = args_dict ?st2"
    by auto
  have "calculate_average (map PFloat (replicate 20 y)) =
          Inr (PFloat (ieee_div (float_sum (replicate 20 y)) (Finite 20)))"
    by (rule calculate_average_20) simp
  with 1 d src show ?thesis
    by (simp add: sweep_point_def Let_def)
qed

lemma sweep_loop_yields:
  assumes "yields popen v" "py_float v = Inr x" "drive_conversion x = Inr y"
    and "dict_get (args_dict st) ''source'' = Inr (PStr src)"
  shows "\<exists>st'. sweep_loop float_repr popen ks res st =
                 (Inr (res @ replicate (length ks)
                    (PFloat (ieee_div (float_sum (replicate 20 y)) (Finite 20)))), st')"
  using assms(4)
proof (induction ks arbitrary: res st)
  case Nil
  then show ?case by simp
next
  case (Cons k ks)
  from sweep_point_yields [OF assms(1-3) Cons.prems] obtain st1 where
    1: "sweep_point float_repr popen k st =
          (Inr (PFloat (ieee_div (float_sum (replicate 20 y)) (Finite 20))), st1)" and
    s: "dict_get (args_dict st1) ''source'' = Inr (PStr src)"
    by blast
  from Cons.IH [OF s, of "res @ [PFloat (ieee_div (float_sum (replicate 20 y)) (Finite 20))]"] 1
  show ?case by (auto simp: replicate_append_same)
qed

lemma collect_data_yields:
  assumes "yields popen v" "py_float v = Inr x" "drive_conversion x = Inr y"
    and "dict_get (args_dict st) ''source'' = Inr (PStr src)"
  shows "fst (collect_data float_repr popen st) =
           Inr (replicate 12 (PFloat (ieee_div (float_sum (replicate 20 y)) (Finite 20))))"
  using sweep_loop_yields [OF assms, of float_repr "[1..12]" "[]"]
  by (auto simp: collect_data_def)

text \<open>
  When the multiples \<open>k * q\<close> up to \<open>n * q\<close> are representable, no addition of the sum
  of \<open>n\<close> copies of \<open>q\<close> rounds, and the mean of twenty copies is \<open>q\<close> again.
\<close>

lemma float_sum_replicate_exact:
  assumes "\<forall>k \<in> {1..n}. round64 (rat_of_nat k * q) = Finite (rat_of_nat k * q)"
  shows "float_sum (replicate n (Finite q)) = Finite (rat_of_nat n * q)"
  using assms
proof (induction n)
  case 0
  then show ?case by (simp add: float_sum_def)
next
  case (Suc n)
  then have "float_sum (replicate n (Finite q)) = Finite (rat_of_nat n * q)" by simp
  moreover have "replicate (Suc n) (Finite q) = replicate n (Finite q) @ [Finite q]"
    by (simp add: replicate_append_same)
  moreover have "Suc n \<in> {1..Suc n}" by simp
  with Suc.prems
  have "round64 (rat_of_nat (Suc n) * q) = Finite (rat_of_nat (Suc n) * q)" by blast
  then have "round64 (rat_of_nat n * q + q) = Finite (rat_of_nat n * q + q)"
    by (simp add: algebra_simps)
  ultimately show ?case by (simp add: float_sum_def algebra_simps)
qed

lemma mean_replicate_exact:
  assumes "\<forall>k \<in> {1..20}. round64 (rat_of_nat k * q) = Finite (rat_of_nat k * q)"
  shows "ieee_div (float_sum (replicate 20 (Finite q))) (Finite 20) = Finite q"
proof -
  have "(1::nat) \<in> {1..20}" by simp
  with assms have "round64 (rat_of_nat 1 * q) = Finite (rat_of_nat 1 * q)" by blast
  then have "round64 q = Finite q" by simp
  with float_sum_replicate_exact [OF assms] show ?thesis by simp
qed

lemma yields_fixed_output: "parse_slim out = Inr v \<Longrightarrow> yields (fixed_output out) v"
  by (simp add: yields_def fixed_output_def)

lemma fst_recording:
  "fst (recording popen command_line_args lw) = fst (popen command_line_args (snd lw))"
  by (simp add: recording_def split: prod.splits)

lemma yields_recording: "yields popen v \<Longrightarrow> yields (recording popen) v"
  unfolding yields_def fst_recording by blast

subsection \<open>Examples for the aggregator\<close>

text \<open>
  A simulator stubbed to print the rate 1.0 on every run: the rate parses, converts to the
  drive conversion 1.0, and twenty of these have the mean 1.0.
\<close>

lemma sweep_chain_nth:
  assumes "sweep_chain float_repr popen ks avgs sts" "j < length ks"
  shows "sweep_point float_repr popen (ks ! j) (sts ! j) = (Inr (avgs ! j), sts ! Suc j)"
  using assms by (simp add: sweep_chain_def list_all_iff)

lemma upto_1_12: "[1..12] = [1, 2, 3, 4, 5, 6, 7, 8, 9, 10, 11, 12::int]"
  by (simp add: upto_rec1)

lemma replicate_20: "replicate 20 x = [x, x, x, x, x, x, x, x, x, x, x, x, x, x, x, x, x, x, x, x]"
  by (simp add: numeral_eq_Suc)

lemma interval_1_20:
  "{1..20::nat} = {1, 2, 3, 4, 5, 6, 7, 8, 9, 10, 11, 12, 13, 14, 15, 16, 17, 18, 19, 20}"
  by (auto; arith)

lemma pair_fst: "fst p = a \<Longrightarrow> p = (a, snd p)"
  by auto

lemma parse_example_1: "parse_slim ''PYTHON:: a b c d e f 1.0 h'' = Inr ''1.0''"
  by (simp add: parse_eval)

lemma float_example_1: "py_float ''1.0'' = Inr (Finite 1)"
  by (simp add: number_eval float_eval)

lemma conversion_example_1: "drive_conversion (Finite 1) = Inr (Finite 1)"
  by (simp add: drive_conversion_def float_truediv_def float_sub_def float_eval)

lemma mean_example_1: "ieee_div (float_sum (replicate 20 (Finite 1))) (Finite 20) = Finite 1"
  unfolding replicate_20 float_sum_def by (simp add: float_eval)


lemma source_example: "dict_get example_args ''source'' = Inr (PStr ''one_gen_full_modified.slim'')"
  by (simp add: example_args_def dict_get_def)

lemma collect_data_example_1:
  assumes "dict_get (args_dict st) ''source'' = Inr (PStr src)" and "yields popen ''1.0''"
  shows "fst (collect_data float_repr popen st) = Inr (replicate 12 (PFloat (Finite 1)))"
  using collect_data_yields [OF assms(2) float_example_1 conversion_example_1 assms(1)]
  by (simp add: mean_example_1)

subsection \<open>The aggregator\<close>

text \<open>
  C7, as stated: for every parameter mapping \<^verbatim>\<open>collect_data\<close> starts the simulator 240
  times and returns twelve values. It does not for a mapping without \<^verbatim>\<open>source\<close>: the
  command builder raises \<^verbatim>\<open>KeyError\<close> in the first pass of the inner loop, before any
  simulator run, and the exception ends the call with no invocation made and no result.
\<close>

theorem collect_data_sweep_counterexample:
  "dict_get [(''CAPACITY'', PInt 50000000)] ''source'' = Inl KeyError \<and>
   fst (collect_data example_repr (recording (fixed_output ''PYTHON:: a b c d e f 1.0 h''))
          \<lparr>args_dict = [(''CAPACITY'', PInt 50000000)], world = ([], ()), console = []\<rparr>) =
     Inl KeyError \<and>
   fst (world (snd (collect_data example_repr
          (recording (fixed_output ''PYTHON:: a b c d e f 1.0 h''))
          \<lparr>args_dict = [(''CAPACITY'', PInt 50000000)], world = ([], ()), console = []\<rparr>))) = []"
  by (simp add: collect_data_def upto_1_12 sweep_point_def one_run_def print_def Let_def
      configure_slim_command_line_def dict_get_def upto_rec1)

text \<open>
  C7, amended: for every parameter mapping, simulator and console on which
  \<^verbatim>\<open>collect_data\<close> returns (no exception ends it), it returns twelve values and has
  started the simulator 240 times: twenty times in a row with the command built from the
  mapping with \<^verbatim>\<open>NUM_GRNAS\<close> set to 1, then twenty times with 2, and so on up to 12; and
  value \<open>j\<close> of the result is what the pass of the outer loop for sweep point \<open>j + 1\<close>
  returned, the passes following one another in this order. The invocations are counted
  by a recording process, whose record starts empty.
\<close>

theorem collect_data_sweep:
  assumes "collect_data float_repr (recording popen) st = (Inr res, st')"
    and "fst (world st) = []"
  shows "length res = 12 \<and>
         length (fst (world st')) = 240 \<and>
         map Inr (fst (world st')) =
           concat (map (\<lambda>k. replicate 20 (fst (configure_slim_command_line float_repr
                      (dict_set (args_dict st) ''NUM_GRNAS'' (PInt k))))) [1..12]) \<and>
         (\<exists>sts. length sts = 13 \<and> hd sts = st \<and> last sts = st' \<and>
            (\<forall>j<12. sweep_point float_repr (recording popen) (int j + 1) (sts ! j) =
                        (Inr (res ! j), sts ! Suc j)))"
proof -
  from assms(1)
  have loop: "sweep_loop float_repr (recording popen) [1..12] [] st = (Inr res, st')"
    by (simp add: collect_data_def)
  from sweep_loop_Inr [OF loop] have len: "length res = 12" by simp
  from sweep_loop_recorded [OF loop] assms(2)
  have log: "map Inr (fst (world st')) =
           concat (map (\<lambda>k. replicate 20 (fst (configure_slim_command_line float_repr
                      (dict_set (args_dict st) ''NUM_GRNAS'' (PInt k))))) [1..12])"
    by simp
  have "length (map (Inr :: string list \<Rightarrow> error + string list) (fst (world st'))) = 240"
    unfolding log by (simp add: upto_1_12)
  then have n: "length (fst (world st')) = 240" by simp
  from sweep_loop_chain [OF loop] obtain sts where
    h: "hd sts = st" and l: "last sts = st'" and
    c: "sweep_chain float_repr (recording popen) [1..12] res sts"
    by auto
  from c have ls: "length sts = 13" by (simp add: sweep_chain_def)
  have "\<forall>j<12. sweep_point float_repr (recording popen) (int j + 1) (sts ! j) =
                        (Inr (res ! j), sts ! Suc j)"
  proof (intro allI impI)
    fix j :: nat assume j: "j < 12"
    then have "[1..12] ! j = 1 + int j" by (intro nth_upto) simp
    with sweep_chain_nth [OF c, of j] j show
      "sweep_point float_repr (recording popen) (int j + 1) (sts ! j) =
         (Inr (res ! j), sts ! Suc j)"
      by (simp add: add.commute)
  qed
  with len n log ls h l show ?thesis by blast
qed

theorem collect_data_sweep_witness:
  "fst (collect_data example_repr (recording (fixed_output ''PYTHON:: a b c d e f 1.0 h''))
          example_recording_state) = Inr (replicate 12 (PFloat (Finite 1))) \<and>
   fst (world example_recording_state) = [] \<and>
   length (replicate 12 (PFloat (Finite 1))) = 12 \<and>
   length (fst (world (snd (collect_data example_repr
      (recording (fixed_output ''PYTHON:: a b c d e f 1.0 h'')) example_recording_state)))) = 240"
proof -
  let ?popen = "fixed_output ''PYTHON:: a b c d e f 1.0 h'' :: unit process"
  have y: "yields (recording ?popen) ''1.0''"
    by (intro yields_recording yields_fixed_output parse_example_1)
  have s: "dict_get (args_dict example_recording_state) ''source'' =
             Inr (PStr ''one_gen_full_modified.slim'')"
    by (simp add: example_recording_state_def source_example)
  have r: "fst (collect_data example_repr (recording ?popen) example_recording_state) =
             Inr (replicate 12 (PFloat (Finite 1)))"
    by (rule collect_data_example_1 [OF s y])
  have e: "fst (world example_recording_state) = []"
    by (simp add: example_recording_state_def)
  from collect_data_sweep [OF pair_fst [OF r] e] r e show ?thesis by simp
qed

text \<open>
  C10. After \<^verbatim>\<open>collect_data\<close> has returned, the mapping of the caller is the one it was
  given with the value 12 stored under \<^verbatim>\<open>NUM_GRNAS\<close>: this key holds 12, and every other
  key holds what it held before, or is absent as before.
\<close>

theorem collect_data_frame:
  assumes "collect_data float_repr popen st = (Inr res, st')"
  shows "args_dict st' = dict_set (args_dict st) ''NUM_GRNAS'' (PInt 12) \<and>
         dict_get (args_dict st') ''NUM_GRNAS'' = Inr (PInt 12) \<and>
         (\<forall>k. k \<noteq> ''NUM_GRNAS'' \<longrightarrow> dict_get (args_dict st') k = dict_get (args_dict st) k)"
proof -
  from assms have "sweep_loop float_repr popen [1..12] [] st = (Inr res, st')"
    by (simp add: collect_data_def)
  from sweep_loop_Inr [OF this]
  have "args_dict st' = dict_set (args_dict st) ''NUM_GRNAS'' (PInt 12)"
    by (simp add: sweep_dict_def upto_1_12)
  then show ?thesis by (simp add: dict_get_set_same dict_get_set_other)
qed

theorem collect_data_frame_witness:
  "fst (collect_data example_repr (fixed_output ''PYTHON:: a b c d e f 1.0 h'') example_state) =
     Inr (replicate 12 (PFloat (Finite 1))) \<and>
   args_dict (snd (collect_data example_repr (fixed_output ''PYTHON:: a b c d e f 1.0 h'')
      example_state)) =
     [(''source'', PStr ''one_gen_full_modified.slim''), (''CAPACITY'', PInt 50000000),
      (''DROP_SIZE'', PInt 1000), (''VERBOSE'', PBool False), (''NUM_GRNAS'', PInt 12)]"
proof -
  let ?popen = "fixed_output ''PYTHON:: a b c d e f 1.0 h'' :: unit process"
  have y: "yields ?popen ''1.0''"
    by (intro yields_fixed_output parse_example_1)
  have s: "dict_get (args_dict example_state) ''source'' =
             Inr (PStr ''one_gen_full_modified.slim'')"
    by (simp add: example_state_def source_example)
  have r: "fst (collect_data example_repr ?popen example_state) =
             Inr (replicate 12 (PFloat (Finite 1)))"
    by (rule collect_data_example_1 [OF s y])
  from collect_data_frame [OF pair_fst [OF r]] r show ?thesis
    by (simp add: example_state_def example_args_def)
qed




text \<open>
  C8, as stated: with the simulator stubbed so that every run yields the value \<open>v\<close>, the
  result is twelve means, each equal to \<^verbatim>\<open>(v - 0.5) / 0.5\<close>. The twelve means are equal
  to one another, but not always to that value, since the sum of twenty floats rounds:
  for \<^verbatim>\<open>v = 0.95\<close> the value \<^verbatim>\<open>(v - 0.5) / 0.5\<close> is the float 0.8999999999999999 (the
  rational \<open>2026619832316723 / 2251799813685248\<close>), the sum of twenty of them is the float
  18.0, and every mean is the float 0.9 (\<open>8106479329266893 / 9007199254740992\<close>), one unit
  in the last place above.
\<close>

theorem collect_data_fixed_value_counterexample:
  "parse_slim ''PYTHON:: a b c d e f 0.95 h'' = Inr ''0.95'' \<and>
   py_float ''0.95'' = Inr (Finite (4278419646001971 / 4503599627370496)) \<and>
   drive_conversion (Finite (4278419646001971 / 4503599627370496)) =
     Inr (Finite (2026619832316723 / 2251799813685248)) \<and>
   fst (collect_data example_repr (fixed_output ''PYTHON:: a b c d e f 0.95 h'') example_state) =
     Inr (replicate 12 (PFloat (Finite (8106479329266893 / 9007199254740992)))) \<and>
   fst (collect_data example_repr (fixed_output ''PYTHON:: a b c d e f 0.95 h'') example_state) \<noteq>
     Inr (replicate 12 (PFloat (Finite (2026619832316723 / 2251799813685248))))"
proof -
  let ?popen = "fixed_output ''PYTHON:: a b c d e f 0.95 h'' :: unit process"
  have p: "parse_slim ''PYTHON:: a b c d e f 0.95 h'' = Inr ''0.95''"
    by (simp add: parse_eval)
  have f: "py_float ''0.95'' = Inr (Finite (4278419646001971 / 4503599627370496))"
    by (simp add: number_eval float_eval)
  have d: "drive_conversion (Finite (4278419646001971 / 4503599627370496)) =
             Inr (Finite (2026619832316723 / 2251799813685248))"
    by (simp add: drive_conversion_def float_truediv_def float_sub_def float_eval)
  have m: "ieee_div (float_sum (replicate 20 (Finite (2026619832316723 / 2251799813685248))))
             (Finite 20) = Finite (8106479329266893 / 9007199254740992)"
    unfolding replicate_20 float_sum_def by (simp add: float_eval)
  have s: "dict_get (args_dict example_state) ''source'' =
             Inr (PStr ''one_gen_full_modified.slim'')"
    by (simp add: example_state_def source_example)
  have r: "fst (collect_data example_repr ?popen example_state) =
             Inr (replicate 12 (PFloat (Finite (8106479329266893 / 9007199254740992))))"
    using collect_data_yields [OF yields_fixed_output [OF p] f d s, of example_repr]
    by (simp add: m)
  have "replicate 12 (PFloat (Finite (8106479329266893 / 9007199254740992))) \<noteq>
        replicate 12 (PFloat (Finite (2026619832316723 / 2251799813685248)))"
    by (simp add: numeral_eq_Suc)
  with p f d r show ?thesis by simp
qed

text \<open>
  C8, amended: with the simulator stubbed so that every run yields the value \<open>v\<close>, the
  result is twelve identical means, each the value that \<^verbatim>\<open>calculate_average\<close> returns on
  twenty copies of \<^verbatim>\<open>(v - 0.5) / 0.5\<close>; this mean is \<^verbatim>\<open>(v - 0.5) / 0.5\<close> itself whenever
  the multiples of that value by 1, 2, ..., 20 are all representable, as they are for
  \<^verbatim>\<open>v = 1.0\<close>.
\<close>

theorem collect_data_fixed_value:
  assumes "yields popen v" and "py_float v = Inr x" and "drive_conversion x = Inr y"
    and "dict_get (args_dict st) ''source'' = Inr (PStr src)"
  shows "(\<exists>mean. calculate_average (replicate 20 (PFloat y)) = Inr (PFloat mean) \<and>
            fst (collect_data float_repr popen st) = Inr (replicate 12 (PFloat mean))) \<and>
         (\<forall>q. y = Finite q \<and>
               (\<forall>k \<in> {1..20}. round64 (rat_of_nat k * q) = Finite (rat_of_nat k * q)) \<longrightarrow>
               fst (collect_data float_repr popen st) = Inr (replicate 12 (PFloat y)))"
proof -
  have "calculate_average (map PFloat (replicate 20 y)) =
          Inr (PFloat (ieee_div (float_sum (replicate 20 y)) (Finite 20)))"
    by (rule calculate_average_20) simp
  then have "calculate_average (replicate 20 (PFloat y)) =
          Inr (PFloat (ieee_div (float_sum (replicate 20 y)) (Finite 20)))"
    by simp
  with collect_data_yields [OF assms] mean_replicate_exact show ?thesis by auto
qed

theorem collect_data_fixed_value_witness:
  "yields (fixed_output ''PYTHON:: a b c d e f 1.0 h'' :: unit process) ''1.0'' \<and>
   py_float ''1.0'' = Inr (Finite 1) \<and>
   drive_conversion (Finite 1) = Inr (Finite 1) \<and>
   dict_get (args_dict example_state) ''source'' = Inr (PStr ''one_gen_full_modified.slim'') \<and>
   fst (collect_data example_repr (fixed_output ''PYTHON:: a b c d e f 1.0 h'') example_state) =
     Inr (replicate 12 (PFloat (Finite 1)))"
proof -
  let ?popen = "fixed_output ''PYTHON:: a b c d e f 1.0 h'' :: unit process"
  have y: "yields ?popen ''1.0''"
    by (intro yields_fixed_output parse_example_1)
  have s: "dict_get (args_dict example_state) ''source'' =
             Inr (PStr ''one_gen_full_modified.slim'')"
    by (simp add: example_state_def source_example)
  have exact: "\<forall>k \<in> {1..20}. round64 (rat_of_nat k * 1) = Finite (rat_of_nat k * 1)"
    unfolding interval_1_20 by (simp only: ball_simps) (simp add: float_eval)
  from collect_data_fixed_value [OF y float_example_1 conversion_example_1 s, of example_repr]
    exact
  have "fst (collect_data example_repr ?popen example_state) =
          Inr (replicate 12 (PFloat (Finite 1)))"
    by blast
  with y s show ?thesis by (simp add: float_example_1 conversion_example_1)
qed

end
